theory Spec2Isabelle
  imports Main "HOL-Library.Word"
begin

section \<open>C strings and the libc functions used by \<open>wifi.c\<close>\<close>

text \<open>
  A C string is modelled by the list of its bytes up to, and excluding, the terminating NUL.
  A pointer into a string is an offset: the string seen through \<open>p + k\<close> is \<open>drop k\<close> of
  the string seen through \<open>p\<close>.
\<close>

abbreviation CR :: char where "CR \<equiv> CHR 0x0D"
abbreviation LF :: char where "LF \<equiv> CHR 0x0A"
abbreviation DQ :: char where "DQ \<equiv> CHR 0x22"

definition CRLF :: string where
  "CRLF = [CR, LF]"

definition CRLFCRLF :: string where
  "CRLFCRLF = [CR, LF, CR, LF]"

text \<open>\<open>strstr(hay, needle)\<close>: the offset of the first occurrence, \<open>None\<close> for \<open>NULL\<close>.\<close>

fun strstr :: "string \<Rightarrow> string \<Rightarrow> nat option" where
  "strstr [] needle = (if needle = [] then Some 0 else None)"
| "strstr (c # cs) needle =
     (if take (length needle) (c # cs) = needle then Some 0
      else map_option Suc (strstr cs needle))"

text \<open>\<open>strncmp(a, b, n) == 0\<close>: the first \<open>n\<close> bytes agree, or both strings end before.\<close>

definition strncmp_eq :: "string \<Rightarrow> string \<Rightarrow> nat \<Rightarrow> bool" where
  "strncmp_eq a b n = (take n a = take n b)"

definition strlen :: "string \<Rightarrow> nat" where
  "strlen s = length s"

definition isspace :: "char \<Rightarrow> bool" where
  "isspace c = (c \<in> set [CHR '' '', CHR 0x09, CHR 0x0A, CHR 0x0B, CHR 0x0C, CHR 0x0D])"

definition isdigit :: "char \<Rightarrow> bool" where
  "isdigit c = (48 \<le> (of_char c :: nat) \<and> (of_char c :: nat) \<le> 57)"

fun atoi_digits :: "int \<Rightarrow> string \<Rightarrow> int" where
  "atoi_digits acc [] = acc"
| "atoi_digits acc (c # cs) =
     (if isdigit c then atoi_digits (acc * 10 + (of_char c - 48)) cs else acc)"

text \<open>
  \<open>atoi\<close> as the C library has it (\<open>(int) strtol(s, NULL, 10)\<close>): leading white space is
  skipped, one optional sign is read, then decimal digits up to the first other byte; no digits
  give 0. A value outside the 32-bit \<open>long\<close> is clamped to its bounds, as \<open>strtol\<close> does.
\<close>

definition atoi :: "string \<Rightarrow> int" where
  "atoi s =
     (let s1 = dropWhile isspace s;
          neg = (case s1 of [] \<Rightarrow> False | c # _ \<Rightarrow> c = CHR ''-'');
          s2 = (case s1 of [] \<Rightarrow> [] | c # r \<Rightarrow> if c = CHR ''-'' \<or> c = CHR ''+'' then r else s1);
          v = atoi_digits 0 s2
      in if neg then max (- 2147483648) (- v) else min 2147483647 v)"

text \<open>\<open>printf\<close>'s \<open>%d\<close> of a non-negative number.\<close>

fun fmt_d :: "nat \<Rightarrow> string" where
  "fmt_d n =
     (if n < 10 then [''0123456789'' ! n]
      else fmt_d (n div 10) @ [''0123456789'' ! (n mod 10)])"

declare fmt_d.simps [simp del]

text \<open>\<open>snprintf(buf, size, ...)\<close>: the formatted text cut to \<open>size - 1\<close> bytes.\<close>

definition snprintf :: "nat \<Rightarrow> string \<Rightarrow> string" where
  "snprintf sz s = take (sz - 1) s"


section \<open>Data of the network supervisor\<close>

datatype WIFI_STATE_t =
    WIFI_STATE_OFFLINE
  | WIFI_STATE_ONLINE
  | WIFI_STATE_CONNECTED
  | WIFI_STATE_FAIL

text \<open>lwIP's \<open>err_t\<close>: the code tells \<open>ERR_OK\<close> and \<open>ERR_WOULDBLOCK\<close> from the rest.\<close>

datatype err_t = ERR_OK | ERR_WOULDBLOCK | ERR_OTHER

datatype BACKEND_STATUS_t =
    BACKEND_STATUS_OKAY
  | BACKEND_STATUS_FAIL
  | BACKEND_STATUS_RECONNECT

datatype STATUS_NOISE_t =
    STATUS_NOISE_ABORT
  | STATUS_NOISE_ONLINE
  | STATUS_NOISE_FAIL
  | STATUS_NOISE_TICK

datatype STATUS_LED_t =
    STATUS_LED_UPDATE
  | STATUS_LED_HEARTBEAT
  | STATUS_LED_FAIL

text \<open>A \<open>struct netconn *\<close> is the number of the allocation that made it.\<close>

type_synonym netconn = nat

text \<open>
  What the task does to the outside, in program order: the calls on connections
  (\<open>netconn_new\<close>, \<open>netconn_connect\<close>, \<open>netconn_write\<close> with the bytes written,
  \<open>netconn_set_nonblocking\<close>, \<open>netconn_shutdown\<close> of the sending side,
  \<open>netconn_close\<close>, \<open>netconn_delete\<close>), \<open>netbuf_free\<close> with \<open>netbuf_delete\<close>, the
  sleeps in milliseconds, the indicator signals, the calls into the backend protocol handler,
  and the \<open>ERROR\<close> log lines (by their format string, macros not expanded). The answers
  to \<open>netconn_recv\<close> and the other queries are in the environment below.
\<close>

datatype event =
    NetconnNew netconn
  | NetconnConnect netconn
  | NetconnWrite netconn string
  | NetconnSetNonblocking netconn
  | NetconnShutdownTx netconn
  | NetconnClose netconn
  | NetconnDelete netconn
  | NetbufFreeDelete
  | OsSleep nat
  | StatusNoise STATUS_NOISE_t
  | StatusLed STATUS_LED_t
  | BackendConnect string int
  | BackendHandle string int
  | BackendDisconnect
  | ERROR string

text \<open>
  A received \<open>struct netbuf\<close>: the result of \<open>netbuf_data\<close> on it, the bytes found at
  \<open>data\<close> read as a C string (up to the first NUL in memory, which need not be at \<open>len\<close>),
  and the reported \<open>len\<close>.
\<close>

datatype netbuf = Netbuf (errData: err_t) (data: string) (len: "16 word")

text \<open>The output of \<open>reqParamsFromUrl\<close>; \<open>auth\<close> may be \<open>NULL\<close>.\<close>

record REQ_PARAMS =
  host :: string
  path :: string
  query :: string
  auth :: "string option"
  https :: bool
  port :: "16 word"

text \<open>
  The build-time constants that \<open>wifi.c\<close> takes from headers outside this source tree:
  program name and version, the size of \<open>sWifiData.url\<close>, and the three backoff constants of
  \<open>backend.h\<close>.
\<close>

record CFG =
  FF_PROGRAM :: string
  FF_BUILDVER :: string
  URL_SIZE :: nat
  BACKEND_STABLE_CONN_THRS :: int
  BACKEND_RECONNECT_INTERVAL :: int
  BACKEND_RECONNECT_INTERVAL_SLOW :: int

text \<open>
  The station's connect status, as the SDK reports it; the code tells \<open>STATION_GOT_IP\<close>
  from the rest (three of which it logs as warnings).
\<close>

datatype station_status =
    STATION_IDLE
  | STATION_CONNECTING
  | STATION_WRONG_PASSWORD
  | STATION_NO_AP_FOUND
  | STATION_CONNECT_FAIL
  | STATION_GOT_IP

text \<open>
  What the outside answers during one iteration of the task loop. In \<open>sWifiWaitConnect\<close>,
  \<open>osTime_wait 0\<close> is the reading of \<open>osTime()\<close> that becomes \<open>now\<close> and
  \<open>osTime_wait (k + 1)\<close> the reading in the loop condition before the \<open>k\<close>-th poll;
  \<open>sdk_wifi_station_get_connect_status k\<close> and \<open>sdk_wifi_get_ip_info k\<close> (the field
  \<open>ip.addr\<close>) are the answers in the \<open>k\<close>-th poll. The URL assembly of
  \<open>sWifiConnectBackend\<close> only feeds \<open>reqParamsFromUrl\<close>, whose result is \<open>reqParams\<close>
  (\<open>None\<close> when it returns 0). \<open>netconn_recv_hello k\<close> is the answer to the \<open>k\<close>-th
  \<open>netconn_recv\<close> of the bootstrap; \<open>backendIsOkay k\<close>, \<open>netconn_recv_pump k\<close> and
  \<open>backendHandle k\<close> are the answers in the \<open>k\<close>-th iteration of the pump.
\<close>

record ENV =
  osTime_wait :: "nat \<Rightarrow> 32 word"
  sdk_wifi_station_get_connect_status :: "nat \<Rightarrow> station_status"
  sdk_wifi_get_ip_info :: "nat \<Rightarrow> 32 word"
  reqParams :: "REQ_PARAMS option"
  netconn_gethostbyname :: err_t
  netconn_connect :: err_t
  netconn_write :: err_t
  netconn_recv_hello :: "nat \<Rightarrow> err_t \<times> netbuf"
  backendConnect :: "string \<Rightarrow> int \<Rightarrow> bool"
  backendIsOkay :: "nat \<Rightarrow> bool"
  netconn_recv_pump :: "nat \<Rightarrow> err_t \<times> netbuf"
  backendHandle :: "nat \<Rightarrow> BACKEND_STATUS_t"
  sWifiIsOnline :: bool
  osTime :: "32 word"

text \<open>
  The task's state: \<open>sWifiState\<close>, \<open>sWifiData.staIp\<close>, \<open>sWifiData.conn\<close> (\<open>None\<close> is \<open>NULL\<close>; the pointer
  is not cleared when the connection is deleted), the static \<open>lastFail\<close>, the connections
  allocated by \<open>netconn_new\<close> and not yet given to \<open>netconn_delete\<close>, the next allocation
  number, and the events so far.
\<close>

record WIFI =
  sWifiState :: WIFI_STATE_t
  staIp :: "32 word"
  conn :: "netconn option"
  lastFail :: "32 word"
  live :: "netconn list"
  nextConn :: netconn
  trace :: "event list"

definition emit :: "event list \<Rightarrow> WIFI \<Rightarrow> WIFI" where
  "emit es s = s\<lparr>trace := trace s @ es\<rparr>"

text \<open>After \<open>wifiInit\<close>: zeroed statics, no connection.\<close>

definition wifiInit :: WIFI where
  "wifiInit = \<lparr>sWifiState = WIFI_STATE_OFFLINE, staIp = 0, conn = None, lastFail = 0, live = [],
                nextConn = 0, trace = []\<rparr>"


section \<open>\<open>sWifiWaitConnect\<close>: the wait for the link\<close>

text \<open>
  The loop of \<open>sWifiWaitConnect\<close> from its \<open>k\<close>-th poll on. It returns \<open>connected\<close>,
  the station address to record when the link came up, and the events; it has no value when
  the loop is never left (the clock never reaches \<open>timeout\<close> and the link never comes
  up). \<open>lastStatus\<close> and \<open>n\<close> only steer the log lines.
\<close>

partial_function (option) wait_loop ::
  "ENV \<Rightarrow> 32 word \<Rightarrow> nat \<Rightarrow> event list \<Rightarrow> (bool \<times> 32 word option \<times> event list) option"
  where
  "wait_loop env timeout k tr =
     (if osTime_wait env (k + 1) < timeout then
        (if sdk_wifi_station_get_connect_status env k = STATION_GOT_IP
            \<and> sdk_wifi_get_ip_info env k \<noteq> 0
         then Some (True, Some (sdk_wifi_get_ip_info env k), tr)
         else wait_loop env timeout (k + 1) (tr @ [OsSleep 100]))
      else Some (False, None, tr))"

text \<open>\<open>WIFI_CONNECT_TIMEOUT\<close> is 30, in seconds.\<close>

definition sWifiWaitConnect :: "ENV \<Rightarrow> WIFI \<Rightarrow> (bool \<times> WIFI) option" where
  "sWifiWaitConnect env s =
     (let now = osTime_wait env 0;
          timeout = now + word_of_int (30 * 1000)
      in case wait_loop env timeout 0 [] of
           None \<Rightarrow> None
         | Some (connected, ip, tr) \<Rightarrow>
             Some (connected,
                   emit tr (case ip of None \<Rightarrow> s | Some a \<Rightarrow> s\<lparr>staIp := a\<rparr>)))"

section \<open>\<open>sWifiConnectBackend\<close>: the HTTP bootstrap\<close>

text \<open>
  The request text of the \<open>snprintf\<close> into \<open>req\<close>, an array of
  \<open>sizeof(sWifiData.url) + 128\<close> bytes.
\<close>

definition request_text :: "CFG \<Rightarrow> REQ_PARAMS \<Rightarrow> string" where
  "request_text cfg p =
     ''POST /'' @ path p @ '' HTTP/1.1'' @ CRLF @
     ''Host: '' @ host p @ CRLF @
     ''Authorization: Basic '' @ (case auth p of None \<Rightarrow> [] | Some a \<Rightarrow> a) @ CRLF @
     ''User-Agent: '' @ FF_PROGRAM cfg @ ''/'' @ FF_BUILDVER cfg @ CRLF @
     ''Content-Length: '' @ fmt_d (strlen (query p)) @ CRLF @
     CRLF @
     query p"

definition make_request :: "CFG \<Rightarrow> REQ_PARAMS \<Rightarrow> string" where
  "make_request cfg p = snprintf (URL_SIZE cfg + 128) (request_text cfg p)"

text \<open>
  The check of the received data for the HTTP response, from \<open>firstLineStart\<close> to the
  test before \<open>backendConnect\<close>. \<open>HeaderEnd b\<close> is \<open>pBody = data + b\<close>.
\<close>

datatype http_check = NotHttp11 | IllegalResponse | NoResponse | HeaderEnd nat

definition check_response :: "string \<Rightarrow> http_check" where
  "check_response pParse =
     (let statusCode = drop 9 pParse;
          firstLineEnd = strstr pParse CRLF
      in case firstLineEnd of
           None \<Rightarrow> NotHttp11
         | Some e \<Rightarrow>
             if \<not> strncmp_eq pParse ''HTTP/1.1 '' 8 then NotHttp11
             else if atoi statusCode \<noteq> 200 then IllegalResponse
             else (case strstr (drop (e + 2) pParse) CRLFCRLF of
                     None \<Rightarrow> NoResponse
                   | Some b \<Rightarrow>
                       if strlen (drop (e + 2 + b) pParse) < 10 then NoResponse
                       else HeaderEnd (e + 2 + b)))"

text \<open>
  One answer of \<open>netconn_recv\<close> other than would-block, handled to the \<open>break\<close>: the
  result is \<open>backendReady\<close>, whether \<open>buf\<close> is non-\<open>NULL\<close>, and the events.
\<close>

definition hello_response ::
  "ENV \<Rightarrow> err_t \<times> netbuf \<Rightarrow> event list \<Rightarrow> bool \<times> bool \<times> event list" where
  "hello_response env r tr =
     (case r of (errRecv, buf) \<Rightarrow>
        if errRecv \<noteq> ERR_OK then (False, False, tr @ [ERROR ''wifi: read failed: %s''])
        else if errData buf \<noteq> ERR_OK then
          (False, True, tr @ [ERROR ''wifi: netbuf_data() failed: %s''])
        else (case check_response (data buf) of
                NotHttp11 \<Rightarrow> (False, True, tr @ [ERROR ''wifi: response is not HTTP/1.1''])
              | IllegalResponse \<Rightarrow> (False, True, tr @ [ERROR ''wifi: illegal response: %s''])
              | NoResponse \<Rightarrow>
                  (False, True, tr @ [ERROR ''wifi: no response (maybe redirect?)''])
              | HeaderEnd b \<Rightarrow>
                  (let pBody = drop b (data buf); n = uint (len buf) - int b
                   in (backendConnect env pBody n, True, tr @ [BackendConnect pBody n]))))"

text \<open>The receive loop, entered with \<open>helloTimeout = 5 * 100\<close>.\<close>

function recv_hello ::
  "ENV \<Rightarrow> nat \<Rightarrow> int \<Rightarrow> event list \<Rightarrow> bool \<times> bool \<times> event list" where
  "recv_hello env k helloTimeout tr =
     (if fst (netconn_recv_hello env k) = ERR_WOULDBLOCK then
        (if helloTimeout - 1 < 0 then (False, False, tr @ [ERROR ''wifi: response timeout''])
         else recv_hello env (k + 1) (helloTimeout - 1) (tr @ [OsSleep 100]))
      else hello_response env (netconn_recv_hello env k) tr)"
  by pat_completeness auto
termination
  by (relation "measure (\<lambda>(env, k, helloTimeout, tr). nat helloTimeout)") auto

declare recv_hello.simps [simp del]

definition sWifiConnectBackend :: "CFG \<Rightarrow> ENV \<Rightarrow> WIFI \<Rightarrow> bool \<times> WIFI" where
  "sWifiConnectBackend cfg env s =
     (case reqParams env of
        None \<Rightarrow> (False, emit [ERROR ''wifi: fishy backend url!''] s)
      | Some p \<Rightarrow>
          if netconn_gethostbyname env \<noteq> ERR_OK then
            (False, emit [ERROR ''wifi: DNS query for %s failed: %s''] s)
          else
            (let c = nextConn s;
                 s1 = emit [NetconnNew c, NetconnConnect c]
                        (s\<lparr>conn := Some c, live := live s @ [c], nextConn := c + 1\<rparr>)
             in if netconn_connect env \<noteq> ERR_OK then
                  (False, emit [ERROR ''wifi: connect to IPSTR:%u failed: %s''] s1)
                else
                  (let req = make_request cfg p;
                       s2 = emit [NetconnWrite c req] s1
                   in if netconn_write env \<noteq> ERR_OK then
                        (False, emit [ERROR ''wifi: POST /%s failed: %s'', NetconnDelete c]
                                  (s2\<lparr>live := removeAll c (live s2)\<rparr>))
                      else
                        (case recv_hello env 0 (5 * 100) [] of
                           (backendReady, bufp, tr) \<Rightarrow>
                             (let s3 = emit (NetconnSetNonblocking c # tr @
                                             (if bufp then [NetbufFreeDelete] else [])) s2
                              in if backendReady then (True, emit [NetconnShutdownTx c] s3)
                                 else (False,
                                       emit [ERROR ''wifi: no or illegal response from backend'',
                                             NetconnClose c, NetconnDelete c]
                                         (s3\<lparr>live := removeAll c (live s3)\<rparr>)))))))"


section \<open>\<open>sWifiHandleConnection\<close>: the connection pump\<close>

text \<open>
  The loop of the pump from its \<open>k\<close>-th iteration on, with the current value of \<open>res\<close>.
  It returns \<open>res\<close> and the events when the loop is left (every way out assigns
  \<open>res\<close> first), and has no value when the loop is never left. \<open>respStr[len] = '\0'\<close> cuts the string handed to \<open>backendHandle\<close> at
  \<open>len\<close>.
\<close>

partial_function (option) pump_loop ::
  "ENV \<Rightarrow> nat \<Rightarrow> bool \<Rightarrow> event list \<Rightarrow> (bool \<times> event list) option" where
  "pump_loop env k res tr =
     (if \<not> backendIsOkay env k then Some (False, tr)
      else (case netconn_recv_pump env k of (errRecv, buf) \<Rightarrow>
        if errRecv = ERR_WOULDBLOCK then pump_loop env (k + 1) res (tr @ [OsSleep 23])
        else if errRecv \<noteq> ERR_OK then Some (False, tr @ [ERROR ''wifi: read failed: %s''])
        else if errData buf \<noteq> ERR_OK then
          Some (False, tr @ [ERROR ''wifi: netbuf_data() failed: %s'', NetbufFreeDelete])
        else
          (let respStr = take (unat (len buf)) (data buf);
               tr' = tr @ [BackendHandle respStr (uint (len buf)), NetbufFreeDelete]
           in case backendHandle env k of
                BACKEND_STATUS_OKAY \<Rightarrow> pump_loop env (k + 1) res tr'
              | BACKEND_STATUS_FAIL \<Rightarrow> Some (False, tr')
              | BACKEND_STATUS_RECONNECT \<Rightarrow> Some (True, tr'))))"

definition sWifiHandleConnection :: "ENV \<Rightarrow> WIFI \<Rightarrow> (bool \<times> WIFI) option" where
  "sWifiHandleConnection env s =
     (case pump_loop env 0 True [] of
        None \<Rightarrow> None
      | Some (res, tr) \<Rightarrow> Some (res, emit (tr @ [BackendDisconnect]) s))"

section \<open>\<open>sWifiTask\<close>: the supervisor\<close>

text \<open>The wait chosen in the \<open>WIFI_STATE_FAIL\<close> case, from \<open>now\<close> and \<open>lastFail\<close>.\<close>

definition fail_waitTime :: "CFG \<Rightarrow> 32 word \<Rightarrow> 32 word \<Rightarrow> int" where
  "fail_waitTime cfg now lastFail' =
     (if now - lastFail' > word_of_int (1000 * BACKEND_STABLE_CONN_THRS cfg)
      then BACKEND_RECONNECT_INTERVAL cfg else BACKEND_RECONNECT_INTERVAL_SLOW cfg)"

function fail_wait :: "int \<Rightarrow> event list" where
  "fail_wait waitTime =
     (if waitTime > 0 then
        OsSleep 1000 # (if waitTime \<le> 3 then [StatusNoise STATUS_NOISE_TICK] else [])
          @ fail_wait (waitTime - 1)
      else [])"
  by pat_completeness auto
termination
  by (relation "measure nat") auto

declare fail_wait.simps [simp del]

text \<open>The online state after the body of a state, as both exits to it compute it.\<close>

definition online_state :: "ENV \<Rightarrow> WIFI_STATE_t" where
  "online_state env = (if sWifiIsOnline env then WIFI_STATE_ONLINE else WIFI_STATE_OFFLINE)"

text \<open>
  One iteration of the \<open>while (true)\<close> of \<open>sWifiTask\<close>: the body of the current state, then
  \<open>osSleep(100)\<close>. It has no value when the wait for the link or the pump never returns.
\<close>

definition sWifiTask_step :: "CFG \<Rightarrow> ENV \<Rightarrow> WIFI \<Rightarrow> WIFI option" where
  "sWifiTask_step cfg env s =
     (case sWifiState s of
        WIFI_STATE_OFFLINE \<Rightarrow>
          (let s1 = emit [StatusNoise STATUS_NOISE_ABORT, StatusLed STATUS_LED_UPDATE] s
           in case sWifiWaitConnect env s1 of
                None \<Rightarrow> None
              | Some (connected, s2) \<Rightarrow>
                  (let s3 = (if connected then s2\<lparr>sWifiState := WIFI_STATE_ONLINE\<rparr>
                             else s2\<lparr>sWifiState := WIFI_STATE_FAIL\<rparr>)
                   in Some (emit [OsSleep 100] s3)))
      | WIFI_STATE_ONLINE \<Rightarrow>
          (case sWifiConnectBackend cfg env s of (ok, s1) \<Rightarrow>
             (let s2 = (if ok then s1\<lparr>sWifiState := WIFI_STATE_CONNECTED\<rparr>
                        else s1\<lparr>sWifiState := WIFI_STATE_FAIL\<rparr>)
              in Some (emit [OsSleep 100] s2)))
      | WIFI_STATE_CONNECTED \<Rightarrow>
          (let s1 = emit [StatusNoise STATUS_NOISE_ONLINE, StatusLed STATUS_LED_HEARTBEAT] s
           in case sWifiHandleConnection env s1 of
                None \<Rightarrow> None
              | Some (reconnect, s2) \<Rightarrow>
                  (let s3 = (if reconnect then s2\<lparr>sWifiState := online_state env\<rparr>
                             else s2\<lparr>sWifiState := WIFI_STATE_FAIL\<rparr>)
                   in Some (emit [OsSleep 100] s3)))
      | WIFI_STATE_FAIL \<Rightarrow>
          (let now = osTime env;
               waitTime = fail_waitTime cfg now (lastFail s);
               s1 = emit ([StatusNoise STATUS_NOISE_FAIL, StatusLed STATUS_LED_FAIL]
                          @ fail_wait waitTime) (s\<lparr>lastFail := now\<rparr>);
               s2 = s1\<lparr>sWifiState := online_state env\<rparr>
           in Some (emit [OsSleep 100] s2)))"

text \<open>Successive iterations, one environment each.\<close>

fun sWifiTask_run :: "CFG \<Rightarrow> ENV list \<Rightarrow> WIFI \<Rightarrow> WIFI option" where
  "sWifiTask_run cfg [] s = Some s"
| "sWifiTask_run cfg (env # envs) s =
     (case sWifiTask_step cfg env s of None \<Rightarrow> None | Some s' \<Rightarrow> sWifiTask_run cfg envs s')"


section \<open>Observations on requests and runs\<close>

text \<open>The request line of an HTTP message: the bytes before the first CRLF.\<close>

definition request_line :: "string \<Rightarrow> string" where
  "request_line req = (case strstr req CRLF of None \<Rightarrow> req | Some e \<Rightarrow> take e req)"

text \<open>The body of an HTTP message: the bytes after the first empty line.\<close>

definition request_body :: "string \<Rightarrow> string" where
  "request_body req = (case strstr req CRLFCRLF of None \<Rightarrow> [] | Some b \<Rightarrow> drop (b + 4) req)"

text \<open>
  The \<open>k\<close>-th iteration of the pump goes round the loop again: the backend is okay, and the
  receive either would block or delivers data that the handler answers with
  \<open>BACKEND_STATUS_OKAY\<close>.
\<close>

definition pump_continues :: "ENV \<Rightarrow> nat \<Rightarrow> bool" where
  "pump_continues env k =
     (backendIsOkay env k \<and>
      (fst (netconn_recv_pump env k) = ERR_WOULDBLOCK \<or>
       (fst (netconn_recv_pump env k) = ERR_OK \<and>
        errData (snd (netconn_recv_pump env k)) = ERR_OK \<and>
        backendHandle env k = BACKEND_STATUS_OKAY)))"

text \<open>
  The \<open>k\<close>-th iteration leaves the loop on the handler's \<open>BACKEND_STATUS_RECONNECT\<close>.
\<close>

definition pump_reconnects :: "ENV \<Rightarrow> nat \<Rightarrow> bool" where
  "pump_reconnects env k =
     (backendIsOkay env k \<and>
      fst (netconn_recv_pump env k) = ERR_OK \<and>
      errData (snd (netconn_recv_pump env k)) = ERR_OK \<and>
      backendHandle env k = BACKEND_STATUS_RECONNECT)"

text \<open>The events of the pump's loop.\<close>

definition is_pump_event :: "event \<Rightarrow> bool" where
  "is_pump_event e =
     (case e of
        OsSleep n \<Rightarrow> n = 23
      | BackendHandle _ _ \<Rightarrow> True
      | NetbufFreeDelete \<Rightarrow> True
      | ERROR _ \<Rightarrow> True
      | _ \<Rightarrow> False)"

section \<open>Scenarios\<close>

text \<open>
  Concrete constants and answers of the outside, after the scenarios of the specification:
  the clock reads 0 at the entry to the wait and 100 ms more at every poll, the station has
  its address at the first poll, DNS, connect and write succeed, the server's first answer is
  \<open>happy_response\<close>, the handler accepts it, and the pump sees two chunks answered with
  \<open>BACKEND_STATUS_OKAY\<close> and a third answered with \<open>BACKEND_STATUS_RECONNECT\<close>.
\<close>

definition cfg0 :: CFG where
  "cfg0 = \<lparr>FF_PROGRAM = ''tschenggins-laempli'', FF_BUILDVER = ''1.0'', URL_SIZE = 400,
           BACKEND_STABLE_CONN_THRS = 300, BACKEND_RECONNECT_INTERVAL = 10,
           BACKEND_RECONNECT_INTERVAL_SLOW = 300\<rparr>"

definition p0 :: REQ_PARAMS where
  "p0 = \<lparr>host = ''example.org'', path = ''status'', query = ''cmd=realtime;ascii=1'',
         auth = None, https = False, port = 80\<rparr>"

definition hello_frame :: string where
  "hello_frame = [CHR ''{'', DQ] @ ''hello'' @ [DQ] @ '':1}''"

definition happy_response :: string where
  "happy_response = ''HTTP/1.1 200 OK'' @ CRLF @ ''Server: X'' @ CRLF @ CRLF @ hello_frame"

definition env0 :: ENV where
  "env0 = \<lparr>osTime_wait = (\<lambda>k. if k < 300 then word_of_nat (100 * k) else 30000),
           sdk_wifi_station_get_connect_status = (\<lambda>k. STATION_GOT_IP),
           sdk_wifi_get_ip_info = (\<lambda>k. 0xC0000205),
           reqParams = Some p0,
           netconn_gethostbyname = ERR_OK, netconn_connect = ERR_OK, netconn_write = ERR_OK,
           netconn_recv_hello = (\<lambda>k. (ERR_OK, Netbuf ERR_OK happy_response 41)),
           backendConnect = (\<lambda>s n. True),
           backendIsOkay = (\<lambda>k. True),
           netconn_recv_pump = (\<lambda>k. (ERR_OK, Netbuf ERR_OK ''chunk'' 5)),
           backendHandle =
             (\<lambda>k. if k < 2 then BACKEND_STATUS_OKAY else BACKEND_STATUS_RECONNECT),
           sWifiIsOnline = True, osTime = 400000\<rparr>"

text \<open>The socket would block on the first 400 polls of the bootstrap.\<close>

definition env_patience :: ENV where
  "env_patience =
     env0\<lparr>netconn_recv_hello :=
            (\<lambda>k. if k < 400 then (ERR_WOULDBLOCK, Netbuf ERR_OTHER [] 0)
                 else (ERR_OK, Netbuf ERR_OK happy_response 41))\<rparr>"

text \<open>The socket would block on every poll of the bootstrap.\<close>

definition env_silent :: ENV where
  "env_silent = env0\<lparr>netconn_recv_hello := (\<lambda>k. (ERR_WOULDBLOCK, Netbuf ERR_OTHER [] 0))\<rparr>"



text \<open>
  The TCP connect fails; the answer has no space after the version; the station stays
  without an address until the clock reaches the timeout.
\<close>

definition env_connect_fail :: ENV where
  "env_connect_fail = env0\<lparr>netconn_connect := ERR_OTHER\<rparr>"


definition env_link_timeout :: ENV where
  "env_link_timeout =
     env0\<lparr>sdk_wifi_station_get_connect_status := (\<lambda>k. STATION_CONNECTING),
          sdk_wifi_get_ip_info := (\<lambda>k. 0)\<rparr>"

text \<open>What a run leaves of a connection: the final state, the live connections, and whether
  the connection was closed and deleted.\<close>

definition conn_summary :: "netconn \<Rightarrow> WIFI \<Rightarrow> WIFI_STATE_t \<times> netconn list \<times> bool \<times> bool" where
  "conn_summary c s =
     (sWifiState s, live s, NetconnClose c \<in> set (trace s), NetconnDelete c \<in> set (trace s))"

section \<open>Facts about the C string functions\<close>

lemmas str_defs =
  CRLF_def CRLFCRLF_def strncmp_eq_def atoi_def isspace_def isdigit_def strlen_def

lemma strstr_SomeD:
  "strstr s n = Some k \<Longrightarrow>
     take (length n) (drop k s) = n \<and> k \<le> length s \<and>
     (\<forall>j<k. take (length n) (drop j s) \<noteq> n)"
proof (induction s arbitrary: k)
  case Nil
  then show ?case by (simp split: if_splits)
next
  case (Cons c cs)
  show ?case
  proof (cases "take (length n) (c # cs) = n")
    case True
    with Cons.prems show ?thesis by simp
  next
    case False
    with Cons.prems obtain k' where k': "strstr cs n = Some k'" "k = Suc k'"
      by auto
    from Cons.IH [OF k'(1)] False k'(2) show ?thesis
      by (auto simp: less_Suc_eq_0_disj)
  qed
qed

lemma strstr_NoneD:
  "strstr s n = None \<Longrightarrow> take (length n) (drop j s) \<noteq> n"
proof (induction s arbitrary: j)
  case Nil
  then show ?case by (auto split: if_splits)
next
  case (Cons c cs)
  then show ?case
    by (cases j) (auto split: if_splits)
qed

section \<open>Facts about the wait for the link\<close>

lemma wait_loop_skip:
  "\<forall>j<n. osTime_wait env (k + j + 1) < timeout \<and>
          \<not> (sdk_wifi_station_get_connect_status env (k + j) = STATION_GOT_IP
             \<and> sdk_wifi_get_ip_info env (k + j) \<noteq> 0) \<Longrightarrow>
     wait_loop env timeout k tr =
       wait_loop env timeout (k + n) (tr @ replicate n (OsSleep 100))"
proof (induction n arbitrary: k tr)
  case 0
  then show ?case by simp
next
  case (Suc n)
  from Suc.prems [rule_format, of 0]
  have first: "wait_loop env timeout k tr = wait_loop env timeout (k + 1) (tr @ [OsSleep 100])"
    by (subst wait_loop.simps) auto
  have "\<forall>j<n. osTime_wait env (k + 1 + j + 1) < timeout \<and>
          \<not> (sdk_wifi_station_get_connect_status env (k + 1 + j) = STATION_GOT_IP
             \<and> sdk_wifi_get_ip_info env (k + 1 + j) \<noteq> 0)"
  proof (intro allI impI)
    fix j assume "j < n"
    with Suc.prems [rule_format, of "Suc j"] show
      "osTime_wait env (k + 1 + j + 1) < timeout \<and>
          \<not> (sdk_wifi_station_get_connect_status env (k + 1 + j) = STATION_GOT_IP
             \<and> sdk_wifi_get_ip_info env (k + 1 + j) \<noteq> 0)"
      by simp
  qed
  from Suc.IH [OF this] first show ?case
    by (simp add: replicate_app_Cons_same)
qed



lemma sWifiWaitConnect_up:
  assumes "osTime_wait env 1 < osTime_wait env 0 + 30000"
    and "sdk_wifi_station_get_connect_status env 0 = STATION_GOT_IP"
    and "sdk_wifi_get_ip_info env 0 \<noteq> 0"
  shows "sWifiWaitConnect env s = Some (True, s\<lparr>staIp := sdk_wifi_get_ip_info env 0\<rparr>)"
  using assms by (simp add: sWifiWaitConnect_def Let_def emit_def wait_loop.simps)

lemma clock_before_timeout: "j < 299 \<Longrightarrow> (word_of_nat (100 * (j + 1)) :: 32 word) < 30000"
proof -
  assume j: "j < 299"
  have a: "unat (word_of_nat (100 * (j + 1)) :: 32 word) = 100 * (j + 1)"
    using j by (intro of_nat_inverse [OF refl]) simp
  have b: "unat (30000 :: 32 word) = 30000"
    by simp
  have "100 * (j + 1) < (30000 :: nat)"
    using j by simp
  then have "unat (word_of_nat (100 * (j + 1)) :: 32 word) < unat (30000 :: 32 word)"
    by (simp only: a b)
  then show ?thesis
    by (simp only: word_less_nat_alt)
qed

lemma sWifiWaitConnect_link_timeout:
  "sWifiWaitConnect env_link_timeout s = Some (False, emit (replicate 299 (OsSleep 100)) s)"
proof -
  have "\<forall>j<299. osTime_wait env_link_timeout (0 + j + 1) < 30000 \<and>
          \<not> (sdk_wifi_station_get_connect_status env_link_timeout (0 + j) = STATION_GOT_IP
             \<and> sdk_wifi_get_ip_info env_link_timeout (0 + j) \<noteq> 0)"
    using clock_before_timeout by (simp add: env_link_timeout_def env0_def)
  from wait_loop_skip [OF this, of "[]"]
  have "wait_loop env_link_timeout 30000 0 [] =
          wait_loop env_link_timeout 30000 299 (replicate 299 (OsSleep 100))"
    by simp
  also have "\<dots> = Some (False, None, replicate 299 (OsSleep 100))"
    by (subst wait_loop.simps) (simp add: env_link_timeout_def env0_def)
  finally show ?thesis
    by (simp add: sWifiWaitConnect_def Let_def env_link_timeout_def env0_def)
qed


lemma sWifiWaitConnect_lastFail:
  "sWifiWaitConnect env s = Some (connected, s') \<Longrightarrow> lastFail s' = lastFail s"
  by (auto simp: sWifiWaitConnect_def Let_def emit_def split: option.splits)

section \<open>Facts about the bootstrap\<close>

lemma check_response_happy: "check_response happy_response = HeaderEnd 26"
  by (simp add: check_response_def happy_response_def hello_frame_def str_defs)


lemma recv_hello_now:
  "fst (netconn_recv_hello env k) \<noteq> ERR_WOULDBLOCK \<Longrightarrow>
     recv_hello env k t tr = hello_response env (netconn_recv_hello env k) tr"
  by (simp add: recv_hello.simps)

lemma recv_hello_skip:
  "\<forall>j<n. fst (netconn_recv_hello env (k + j)) = ERR_WOULDBLOCK \<Longrightarrow> int n \<le> t \<Longrightarrow>
     recv_hello env k t tr =
       recv_hello env (k + n) (t - int n) (tr @ replicate n (OsSleep 100))"
proof (induction n arbitrary: k t tr)
  case 0
  then show ?case by simp
next
  case (Suc n)
  from Suc.prems have wb: "fst (netconn_recv_hello env k) = ERR_WOULDBLOCK"
    by (metis add.right_neutral zero_less_Suc)
  from Suc.prems have rest: "\<forall>j<n. fst (netconn_recv_hello env (k + 1 + j)) = ERR_WOULDBLOCK"
    by (metis Suc_less_eq add.assoc plus_1_eq_Suc)
  from Suc.prems have t: "int n \<le> t - 1" "\<not> t - 1 < 0"
    by simp_all
  have "recv_hello env k t tr = recv_hello env (k + 1) (t - 1) (tr @ [OsSleep 100])"
    using wb t by (subst recv_hello.simps) simp
  also have "\<dots> = recv_hello env (k + 1 + n) (t - 1 - int n)
                     ((tr @ [OsSleep 100]) @ replicate n (OsSleep 100))"
    by (rule Suc.IH [OF rest t(1)])
  finally show ?case
    by (simp add: replicate_app_Cons_same algebra_simps)
qed

lemma recv_hello_timeout:
  "fst (netconn_recv_hello env k) = ERR_WOULDBLOCK \<Longrightarrow>
     recv_hello env k 0 tr = (False, False, tr @ [ERROR ''wifi: response timeout''])"
  by (simp add: recv_hello.simps)

lemma recv_hello_patience:
  assumes "\<forall>j<n. fst (netconn_recv_hello env j) = ERR_WOULDBLOCK"
    and "n = 501 \<or> (n \<le> 500 \<and> fst (netconn_recv_hello env n) \<noteq> ERR_WOULDBLOCK)"
  shows "recv_hello env 0 (5 * 100) tr =
           (if n \<le> 500
            then hello_response env (netconn_recv_hello env n) (tr @ replicate n (OsSleep 100))
            else (False, False,
                  tr @ replicate 500 (OsSleep 100) @ [ERROR ''wifi: response timeout'']))"
proof (cases "n \<le> 500")
  case True
  with assms(2) have now: "fst (netconn_recv_hello env n) \<noteq> ERR_WOULDBLOCK"
    by simp
  from assms(1) True
  have "recv_hello env 0 (5 * 100) tr =
          recv_hello env (0 + n) (5 * 100 - int n) (tr @ replicate n (OsSleep 100))"
    by (intro recv_hello_skip) simp_all
  with now True show ?thesis
    by (simp add: recv_hello_now)
next
  case False
  with assms(2) have n: "n = 501" by simp
  with assms(1) have wb: "\<forall>j<500. fst (netconn_recv_hello env (0 + j)) = ERR_WOULDBLOCK"
    and last: "fst (netconn_recv_hello env 500) = ERR_WOULDBLOCK"
    by simp_all
  have "recv_hello env 0 (5 * 100) tr =
          recv_hello env (0 + 500) (5 * 100 - int 500) (tr @ replicate 500 (OsSleep 100))"
    by (rule recv_hello_skip [OF wb]) simp
  with last n show ?thesis
    by (simp add: recv_hello_timeout)
qed

lemma hello_response_events:
  "\<exists>e. snd (snd (hello_response env r tr)) = tr @ e \<and> OsSleep 100 \<notin> set e \<and>
        ERROR ''wifi: response timeout'' \<notin> set e \<and>
        fst (hello_response env r tr) = fst (hello_response env r [])"
  by (cases r) (simp add: hello_response_def Let_def split: http_check.splits)

lemma sWifiConnectBackend_receive:
  assumes "reqParams env = Some p" and "netconn_gethostbyname env = ERR_OK"
    and "netconn_connect env = ERR_OK" and "netconn_write env = ERR_OK"
    and "recv_hello env 0 (5 * 100) [] = (backendReady, bufp, tr)"
  shows "fst (sWifiConnectBackend cfg env s) = backendReady \<and>
         trace (snd (sWifiConnectBackend cfg env s)) =
           trace s @ [NetconnNew (nextConn s), NetconnConnect (nextConn s),
                      NetconnWrite (nextConn s) (make_request cfg p),
                      NetconnSetNonblocking (nextConn s)]
             @ tr @ (if bufp then [NetbufFreeDelete] else [])
             @ (if backendReady then [NetconnShutdownTx (nextConn s)]
                else [ERROR ''wifi: no or illegal response from backend'',
                      NetconnClose (nextConn s), NetconnDelete (nextConn s)])"
  using assms by (simp add: sWifiConnectBackend_def Let_def emit_def)

section \<open>Connections that outlive their state\<close>

text \<open>
  C1 (the code departs from it). The claim: every exit from \<open>CONNECTED\<close> closes and releases
  the connection, so that after a transition to a state other than \<open>CONNECTED\<close> no connection
  is live. In the run below the link comes up, the bootstrap succeeds, and the pump leaves on
  the handler's \<open>BACKEND_STATUS_RECONNECT\<close> at the third chunk with the link still up: the
  task is in \<open>ONLINE\<close>, connection 0 is still live, and neither \<open>netconn_close\<close> nor
  \<open>netconn_delete\<close> was called on it.
\<close>

theorem pump_exit_keeps_connection:
  "map_option (conn_summary 0) (sWifiTask_run cfg0 [env0, env0, env0] wifiInit)
     = Some (WIFI_STATE_ONLINE, [0], False, False)"
  by (simp add: sWifiTask_step_def wifiInit_def emit_def env0_def sWifiConnectBackend_def
      sWifiWaitConnect_up Let_def recv_hello_now hello_response_def check_response_happy
      sWifiHandleConnection_def pump_loop.simps online_state_def conn_summary_def)

text \<open>
  C2 (the code departs from it). The claim: whatever step of the bootstrap fails, the
  connection it created is closed and released before the task is in \<open>FAIL\<close>. In the run
  below the link comes up and \<open>netconn_connect\<close> fails: the task is in \<open>FAIL\<close>, the
  connection made by \<open>netconn_new\<close> is still live, and neither \<open>netconn_close\<close> nor
  \<open>netconn_delete\<close> was called on it.
\<close>

theorem connect_failure_keeps_connection:
  "map_option (conn_summary 0) (sWifiTask_run cfg0 [env0, env_connect_fail] wifiInit)
     = Some (WIFI_STATE_FAIL, [0], False, False)"
  by (simp add: sWifiTask_step_def wifiInit_def emit_def env0_def env_connect_fail_def
      sWifiWaitConnect_up sWifiConnectBackend_def Let_def conn_summary_def)

section \<open>The status line\<close>






section \<open>The end of the header\<close>


lemma length_CRLFCRLF: "length CRLFCRLF = 4"
  by (simp add: CRLFCRLF_def)
lemma length_CRLF: "length CRLF = 2"
  by (simp add: CRLF_def)

lemma check_response_cases:
  assumes "check_response m \<noteq> NotHttp11" and "check_response m \<noteq> IllegalResponse"
  obtains e where "strstr m CRLF = Some e"
    and "check_response m =
          (case strstr (drop (e + 2) m) CRLFCRLF of
             None \<Rightarrow> NoResponse
           | Some b \<Rightarrow> if length (drop (e + 2 + b) m) < 10 then NoResponse
                       else HeaderEnd (e + 2 + b))"
  using assms
  by (auto simp: check_response_def Let_def strlen_def split: option.splits if_splits)

text \<open>
  C5, as the code has it. Once the first line has passed (a CRLF at \<open>e\<close>, the eight bytes
  \<open>HTTP/1.1\<close>, status 200), the terminator CRLF CRLF is searched from \<open>e + 2\<close> on, after
  the first line's own CRLF. The bootstrap goes on exactly if there is an occurrence \<open>k\<close>
  with at least 10 bytes from \<open>k\<close> on, the four bytes of the terminator counted; otherwise it
  fails with "no response". When it goes on, \<open>b\<close> is the first occurrence, and
  \<open>backendConnect\<close> is handed the string at \<open>b\<close>, which begins with the terminator, and
  \<open>len - b\<close>.
\<close>

theorem header_end_handoff:
  assumes "check_response m \<noteq> NotHttp11" and "check_response m \<noteq> IllegalResponse"
  shows "\<exists>e. strstr m CRLF = Some e \<and>
          (if \<exists>k\<ge>e + 2. take 4 (drop k m) = CRLFCRLF \<and> 10 \<le> length (drop k m)
           then \<exists>b\<ge>e + 2. take 4 (drop b m) = CRLFCRLF \<and> 10 \<le> length (drop b m) \<and>
                  (\<forall>j. e + 2 \<le> j \<and> j < b \<longrightarrow> take 4 (drop j m) \<noteq> CRLFCRLF) \<and>
                  hello_response env (ERR_OK, Netbuf ERR_OK m l) tr =
                    (backendConnect env (drop b m) (uint l - int b), True,
                     tr @ [BackendConnect (drop b m) (uint l - int b)])
           else hello_response env (ERR_OK, Netbuf ERR_OK m l) tr =
                  (False, True, tr @ [ERROR ''wifi: no response (maybe redirect?)'']))"
proof -
  from assms obtain e where e: "strstr m CRLF = Some e"
    and cr: "check_response m =
          (case strstr (drop (e + 2) m) CRLFCRLF of
             None \<Rightarrow> NoResponse
           | Some b \<Rightarrow> if length (drop (e + 2 + b) m) < 10 then NoResponse
                       else HeaderEnd (e + 2 + b))"
    by (rule check_response_cases)
  let ?occ = "\<lambda>k. take 4 (drop k m) = CRLFCRLF"
  let ?good = "\<exists>k\<ge>e + 2. ?occ k \<and> 10 \<le> length (drop k m)"
  show ?thesis
  proof (cases "strstr (drop (e + 2) m) CRLFCRLF")
    case None
    have no: "\<not> ?occ k" if "e + 2 \<le> k" for k
    proof -
      from that obtain j where k: "k = e + 2 + j"
        using le_Suc_ex by blast
      from strstr_NoneD [OF None, of j] show ?thesis
        by (simp add: k length_CRLFCRLF add.commute)
    qed
    then have "\<not> ?good" by blast
    moreover from None cr have "check_response m = NoResponse" by simp
    ultimately show ?thesis
      using e by (simp add: hello_response_def)
  next
    case (Some b')
    from strstr_SomeD [OF Some]
    have occ: "?occ (e + 2 + b')"
      and least: "\<And>j. j < b' \<Longrightarrow> \<not> ?occ (e + 2 + j)"
      by (simp_all add: length_CRLFCRLF add.commute)
    have least': "\<not> ?occ k" if "e + 2 \<le> k" "k < e + 2 + b'" for k
    proof -
      from that obtain j where k: "k = e + 2 + j" "j < b'"
        using le_Suc_ex by (metis nat_add_left_cancel_less)
      with least show ?thesis by simp
    qed
    show ?thesis
    proof (cases "length (drop (e + 2 + b') m) < 10")
      case True
      have "\<not> ?good"
      proof
        assume ?good
        then obtain k where k: "e + 2 \<le> k" "?occ k" "10 \<le> length (drop k m)" by blast
        with least' have "e + 2 + b' \<le> k" by (meson not_le)
        with True k(3) show False by simp
      qed
      moreover from Some cr True have "check_response m = NoResponse" by simp
      ultimately show ?thesis
        using e by (simp add: hello_response_def)
    next
      case False
      with occ have "?good" by (intro exI [of _ "e + 2 + b'"]) simp
      moreover from Some cr False have "check_response m = HeaderEnd (e + 2 + b')" by simp
      ultimately show ?thesis
        using e occ least' False
        by (auto simp: hello_response_def Let_def intro!: exI [of _ "e + 2 + b'"])
    qed
  qed
qed


theorem header_end_handoff_witness:
  "check_response happy_response \<noteq> NotHttp11 \<and>
   check_response happy_response \<noteq> IllegalResponse \<and>
   (\<exists>e. strstr happy_response CRLF = Some e \<and>
      (\<exists>b\<ge>e + 2. take 4 (drop b happy_response) = CRLFCRLF \<and>
         hello_response env0 (ERR_OK, Netbuf ERR_OK happy_response 41) [] =
           (backendConnect env0 (drop b happy_response) (41 - int b), True,
            [BackendConnect (drop b happy_response) (41 - int b)])))"
proof -
  have h: "check_response happy_response \<noteq> NotHttp11"
          "check_response happy_response \<noteq> IllegalResponse"
    by (simp_all add: check_response_happy)
  have good: "\<exists>k\<ge>15 + 2. take 4 (drop k happy_response) = CRLFCRLF
                \<and> 10 \<le> length (drop k happy_response)"
    by (rule exI [of _ 26]) (simp add: happy_response_def hello_frame_def CRLF_def CRLFCRLF_def)
  have e: "strstr happy_response CRLF = Some 15"
    by (simp add: happy_response_def CRLF_def)
  from header_end_handoff [OF h, of env0 41 "[]"] e good h show ?thesis
    by auto
qed


text \<open>
  C5 as stated fails in the happy path of the specification: the handler is handed the 15
  bytes that begin with CRLF CRLF, not the 11 bytes of the frame.
\<close>

theorem handler_receives_terminator:
  "BackendConnect (CRLFCRLF @ hello_frame) 15
     \<in> set (trace (snd (sWifiConnectBackend cfg0 env0 wifiInit))) \<and>
   BackendConnect hello_frame 11
     \<notin> set (trace (snd (sWifiConnectBackend cfg0 env0 wifiInit)))"
proof -
  have d: "drop 26 happy_response = CRLFCRLF @ hello_frame"
    by (simp add: happy_response_def CRLF_def CRLFCRLF_def)
  have n: "CRLFCRLF @ hello_frame \<noteq> hello_frame"
    by (simp add: CRLFCRLF_def)
  show ?thesis
    using n
    by (simp add: wifiInit_def emit_def env0_def sWifiConnectBackend_def Let_def
        recv_hello_now hello_response_def check_response_happy d)
qed


section \<open>The request\<close>


lemma strstr_skip:
  "n \<noteq> [] \<Longrightarrow> hd n \<notin> set a \<Longrightarrow>
     strstr (a @ s) n = map_option (\<lambda>k. length a + k) (strstr s n)"
proof (induction a)
  case Nil
  then show ?case by (simp add: option.map_ident)
next
  case (Cons c a)
  from Cons.prems have "take (length n) (c # a @ s) \<noteq> n"
    by (cases n) auto
  with Cons show ?case
    by (simp add: option.map_comp comp_def)
qed

lemma strstr_first_line:
  "CR \<notin> set a \<Longrightarrow> strstr (a @ CRLF @ s) CRLF = Some (length a)"
  by (subst strstr_skip) (simp_all add: CRLF_def)

lemma strstr_next_line:
  "c \<noteq> CR \<Longrightarrow>
     strstr (CRLF @ c # s) CRLFCRLF = map_option (\<lambda>k. 2 + k) (strstr (c # s) CRLFCRLF)"
  by (simp add: CRLF_def CRLFCRLF_def option.map_comp comp_def)

lemma strstr_header_end:
  assumes "ls \<noteq> []" and "\<forall>l\<in>set ls. l \<noteq> [] \<and> CR \<notin> set l"
  shows "strstr (concat (map (\<lambda>l. l @ CRLF) ls) @ CRLF @ q) CRLFCRLF
           = Some (length (concat (map (\<lambda>l. l @ CRLF) ls)) - 2)"
  using assms
proof (induction ls rule: list_nonempty_induct)
  case (single l)
  then have "strstr (l @ CRLF @ CRLF @ q) CRLFCRLF
               = map_option (\<lambda>k. length l + k) (strstr (CRLF @ CRLF @ q) CRLFCRLF)"
    by (intro strstr_skip) (simp_all add: CRLFCRLF_def)
  then show ?case
    by (simp add: CRLF_def CRLFCRLF_def)
next
  case (cons l ls)
  let ?rest = "concat (map (\<lambda>l. l @ CRLF) ls)"
  from cons.hyps obtain l' ls' where ls: "ls = l' # ls'"
    by (cases ls) auto
  with cons.prems obtain c t where l': "l' = c # t" "c \<noteq> CR"
    by (cases l') auto
  from cons have IH: "strstr (?rest @ CRLF @ q) CRLFCRLF = Some (length ?rest - 2)"
    by simp
  have len: "2 \<le> length ?rest"
    by (simp add: ls CRLF_def)
  have "strstr (l @ CRLF @ ?rest @ CRLF @ q) CRLFCRLF
          = map_option (\<lambda>k. length l + k) (strstr (CRLF @ ?rest @ CRLF @ q) CRLFCRLF)"
    using cons.prems by (intro strstr_skip) (simp_all add: CRLFCRLF_def)
  also have "strstr (CRLF @ ?rest @ CRLF @ q) CRLFCRLF
          = map_option (\<lambda>k. 2 + k) (strstr (?rest @ CRLF @ q) CRLFCRLF)"
    using strstr_next_line [OF l'(2), of "t @ CRLF @ concat (map (\<lambda>l. l @ CRLF) ls') @ CRLF @ q"]
    by (simp add: ls l')
  finally show ?case
    using IH len by (simp add: CRLF_def)
qed

lemma fmt_d_digits: "set (fmt_d n) \<subseteq> set ''0123456789''"
proof (induction n rule: fmt_d.induct)
  case (1 n)
  have d: "''0123456789'' ! k \<in> set ''0123456789''" if "k < 10" for k
    using that by (intro nth_mem) simp
  show ?case
  proof (cases "n < 10")
    case True
    with d [of n] show ?thesis by (subst fmt_d.simps) simp
  next
    case False
    with "1" d [of "n mod 10"] show ?thesis
      by (subst fmt_d.simps) simp
  qed
qed

lemma fmt_d_no_CR: "CR \<notin> set (fmt_d n)"
  using fmt_d_digits [of n] by auto

lemma fmt_d_nonempty: "fmt_d n \<noteq> []"
  by (subst fmt_d.simps) simp

text \<open>
  \<open>fmt_d\<close> writes the decimal numeral of its argument: \<open>atoi\<close> reads the number back.
\<close>

lemma digit_char:
  assumes "k < 10"
  shows "isdigit (''0123456789'' ! k) \<and> of_char (''0123456789'' ! k) = 48 + int k
         \<and> \<not> isspace (''0123456789'' ! k)
         \<and> ''0123456789'' ! k \<noteq> CHR ''-'' \<and> ''0123456789'' ! k \<noteq> CHR ''+''"
proof -
  from assms have "k \<in> {0, 1, 2, 3, 4, 5, 6, 7, 8, 9}" by auto
  then show ?thesis
    by (auto simp: isdigit_def isspace_def)
qed

lemma atoi_digits_snoc:
  "list_all isdigit xs \<Longrightarrow>
     atoi_digits acc (xs @ [c]) =
       (if isdigit c then atoi_digits acc xs * 10 + (of_char c - 48) else atoi_digits acc xs)"
  by (induction xs arbitrary: acc) simp_all

lemma fmt_d_isdigit: "list_all isdigit (fmt_d n)"
proof (induction n rule: fmt_d.induct)
  case (1 n)
  show ?case
  proof (cases "n < 10")
    case True
    with digit_char [of n] show ?thesis
      by (subst fmt_d.simps) simp
  next
    case False
    with "1" digit_char [of "n mod 10"] show ?thesis
      by (subst fmt_d.simps) simp
  qed
qed

lemma atoi_digits_fmt_d: "atoi_digits 0 (fmt_d n) = int n"
proof (induction n rule: fmt_d.induct)
  case (1 n)
  show ?case
  proof (cases "n < 10")
    case True
    with digit_char [of n] show ?thesis
      by (subst fmt_d.simps) simp
  next
    case False
    with "1" have IH: "atoi_digits 0 (fmt_d (n div 10)) = int (n div 10)"
      by simp
    from False have "fmt_d n = fmt_d (n div 10) @ [''0123456789'' ! (n mod 10)]"
      by (subst fmt_d.simps) simp
    with IH digit_char [of "n mod 10"] fmt_d_isdigit [of "n div 10"]
    have "atoi_digits 0 (fmt_d n) = int (n div 10) * 10 + int (n mod 10)"
      by (simp add: atoi_digits_snoc)
    then show ?thesis
      by (simp add: zdiv_int zmod_int)
  qed
qed

lemma fmt_d_hd: "\<exists>c cs. fmt_d n = c # cs \<and> \<not> isspace c \<and> c \<noteq> CHR ''-'' \<and> c \<noteq> CHR ''+''"
proof (induction n rule: fmt_d.induct)
  case (1 n)
  show ?case
  proof (cases "n < 10")
    case True
    with digit_char [of n] show ?thesis
      by (subst fmt_d.simps) simp
  next
    case False
    with "1" obtain c cs where "fmt_d (n div 10) = c # cs" "\<not> isspace c"
      "c \<noteq> CHR ''-''" "c \<noteq> CHR ''+''"
      by auto
    with False show ?thesis
      by (subst fmt_d.simps) simp
  qed
qed

lemma atoi_fmt_d: "n \<le> 2147483647 \<Longrightarrow> atoi (fmt_d n) = int n"
proof -
  assume n: "n \<le> 2147483647"
  from fmt_d_hd [of n] obtain c cs where
    c: "fmt_d n = c # cs" "\<not> isspace c" "c \<noteq> CHR ''-''" "c \<noteq> CHR ''+''"
    by blast
  from atoi_digits_fmt_d [of n] c have "atoi_digits 0 (c # cs) = int n"
    by simp
  with c n show ?thesis
    by (simp add: atoi_def Let_def del: atoi_digits.simps)
qed

lemma request_text_scenario:
  "request_text cfg0 p0 =
     ''POST /status HTTP/1.1'' @ CRLF @ ''Host: example.org'' @ CRLF @
     ''Authorization: Basic '' @ CRLF @ ''User-Agent: tschenggins-laempli/1.0'' @ CRLF @
     ''Content-Length: 20'' @ CRLF @ CRLF @ ''cmd=realtime;ascii=1''"
  by (simp add: request_text_def cfg0_def p0_def strlen_def fmt_d.simps)

lemma make_request_scenario: "make_request cfg0 p0 = request_text cfg0 p0"
  by (simp add: make_request_def snprintf_def request_text_scenario CRLF_def)
    (simp add: cfg0_def)

text \<open>
  C3, as the code has it. When the formatted request fits the buffer \<open>req\<close> and the path,
  the host, the credentials, the program name and the version contain no carriage return, the
  request line is \<open>POST /<path> HTTP/1.1\<close>, built from the path alone; the body, the bytes
  after the first empty line, is the query string; and the last header is \<open>Content-Length\<close>
  with the length of the body as \<open>%d\<close> prints it.
\<close>

theorem request_line_and_body:
  assumes "length (request_text cfg p) < URL_SIZE cfg + 128"
    and "CR \<notin> set (path p)" and "CR \<notin> set (host p)"
    and "CR \<notin> set (case auth p of None \<Rightarrow> [] | Some a \<Rightarrow> a)"
    and "CR \<notin> set (FF_PROGRAM cfg)" and "CR \<notin> set (FF_BUILDVER cfg)"
  shows "request_line (make_request cfg p) = ''POST /'' @ path p @ '' HTTP/1.1'' \<and>
         request_body (make_request cfg p) = query p \<and>
         (\<exists>h. make_request cfg p =
                h @ CRLF @ ''Content-Length: ''
                  @ fmt_d (length (request_body (make_request cfg p))) @ CRLF @ CRLF
                  @ request_body (make_request cfg p))"
proof -
  let ?l1 = "''POST /'' @ path p @ '' HTTP/1.1''"
  let ?l2 = "''Host: '' @ host p"
  let ?l3 = "''Authorization: Basic '' @ (case auth p of None \<Rightarrow> [] | Some a \<Rightarrow> a)"
  let ?l4 = "''User-Agent: '' @ FF_PROGRAM cfg @ ''/'' @ FF_BUILDVER cfg"
  let ?l5 = "''Content-Length: '' @ fmt_d (length (query p))"
  let ?ls = "[?l1, ?l2, ?l3, ?l4, ?l5]"
  let ?hdr = "concat (map (\<lambda>l. l @ CRLF) ?ls)"
  have rt: "request_text cfg p = ?hdr @ CRLF @ query p"
    by (simp add: request_text_def strlen_def)
  have req: "make_request cfg p = request_text cfg p"
    using assms(1) by (simp add: make_request_def snprintf_def)
  have "strstr (?l1 @ CRLF @ concat (map (\<lambda>l. l @ CRLF) [?l2, ?l3, ?l4, ?l5]) @ CRLF @ query p) CRLF
          = Some (length ?l1)"
    using assms(2) by (intro strstr_first_line) simp
  then have line: "request_line (make_request cfg p) = ?l1"
    by (simp add: req rt request_line_def)
  have "\<forall>l\<in>set ?ls. l \<noteq> [] \<and> CR \<notin> set l"
    using assms(2-6) fmt_d_no_CR [of "length (query p)"] by simp
  then have "strstr (?hdr @ CRLF @ query p) CRLFCRLF = Some (length ?hdr - 2)"
    by (intro strstr_header_end) simp
  moreover have "drop (length h - 2 + 4) (h @ CRLF @ query p) = query p"
    if "2 \<le> length h" for h :: string
    using that by (simp add: CRLF_def)
  from this [of ?hdr] have "drop (length ?hdr - 2 + 4) (?hdr @ CRLF @ query p) = query p"
    by (simp add: CRLF_def)
  ultimately have body: "request_body (make_request cfg p) = query p"
    by (simp add: req rt request_body_def)
  have "make_request cfg p =
          (?l1 @ CRLF @ ?l2 @ CRLF @ ?l3 @ CRLF @ ?l4) @ CRLF @ ''Content-Length: ''
            @ fmt_d (length (query p)) @ CRLF @ CRLF @ query p"
    by (simp add: req rt)
  with line body show ?thesis
    by (metis (no_types, lifting))
qed


theorem request_line_and_body_witness:
  "length (request_text cfg0 p0) < URL_SIZE cfg0 + 128 \<and>
   CR \<notin> set (path p0) \<and> CR \<notin> set (host p0) \<and>
   CR \<notin> set (case auth p0 of None \<Rightarrow> [] | Some a \<Rightarrow> a) \<and>
   CR \<notin> set (FF_PROGRAM cfg0) \<and> CR \<notin> set (FF_BUILDVER cfg0) \<and>
   request_line (make_request cfg0 p0) = ''POST /status HTTP/1.1'' \<and>
   request_body (make_request cfg0 p0) = ''cmd=realtime;ascii=1''"
proof -
  have fits: "length (request_text cfg0 p0) < URL_SIZE cfg0 + 128"
    by (simp add: request_text_scenario CRLF_def) (simp add: cfg0_def)
  have cr: "CR \<notin> set (path p0)" "CR \<notin> set (host p0)"
    "CR \<notin> set (case auth p0 of None \<Rightarrow> [] | Some a \<Rightarrow> a)"
    "CR \<notin> set (FF_PROGRAM cfg0)" "CR \<notin> set (FF_BUILDVER cfg0)"
    by (simp_all add: p0_def cfg0_def)
  from request_line_and_body [OF fits cr] fits cr show ?thesis
    by (simp add: p0_def)
qed


text \<open>
  C3 as stated fails: the query string is not in the request line. With the path \<open>status\<close>
  and the query \<open>cmd=realtime;ascii=1\<close> the request line is \<open>POST /status HTTP/1.1\<close>.
\<close>

theorem request_line_without_query:
  "request_line (make_request cfg0 p0) = ''POST /status HTTP/1.1'' \<and>
   strstr (request_line (make_request cfg0 p0)) (''?'' @ query p0) = None"
proof -
  have "request_line (make_request cfg0 p0) = ''POST /status HTTP/1.1''"
    by (simp add: make_request_scenario request_text_scenario request_line_def CRLF_def)
  then show ?thesis
    by (simp add: p0_def)
qed


section \<open>The backoff\<close>


lemma fail_wait_seconds:
  "length (filter ((=) (OsSleep 1000)) (fail_wait w)) = nat w"
proof (induction w rule: fail_wait.induct)
  case (1 w)
  show ?case
  proof (cases "w > 0")
    case True
    with "1" have "length (filter ((=) (OsSleep 1000)) (fail_wait (w - 1))) = nat (w - 1)"
      by simp
    with True show ?thesis
      by (subst fail_wait.simps) (simp add: nat_diff_distrib)
  next
    case False
    then show ?thesis
      by (subst fail_wait.simps) simp
  qed
qed

text \<open>
  C6, as the code has it. Every iteration that starts in \<open>FAIL\<close> returns. The wait \<open>w\<close> is
  the slow interval when \<open>now - lastFail\<close>, a difference of 32-bit millisecond counters,
  is at most 1000 times the stable-connection threshold, and the short interval when it is
  greater; \<open>lastFail\<close> becomes \<open>now\<close>; and the task then sleeps \<open>w\<close> times one second.
\<close>

theorem fail_entry_backoff:
  assumes "sWifiState s = WIFI_STATE_FAIL"
  shows "\<exists>s' w. sWifiTask_step cfg env s = Some s' \<and>
           w = (if osTime env - lastFail s \<le> word_of_int (1000 * BACKEND_STABLE_CONN_THRS cfg)
                then BACKEND_RECONNECT_INTERVAL_SLOW cfg else BACKEND_RECONNECT_INTERVAL cfg) \<and>
           lastFail s' = osTime env \<and>
           trace s' = trace s @ [StatusNoise STATUS_NOISE_FAIL, StatusLed STATUS_LED_FAIL]
                        @ fail_wait w @ [OsSleep 100] \<and>
           length (filter ((=) (OsSleep 1000)) (fail_wait w)) = nat w"
  using assms
  by (simp add: sWifiTask_step_def Let_def emit_def fail_waitTime_def fail_wait_seconds
      not_less [symmetric])

theorem fail_entry_backoff_witness:
  "sWifiState (wifiInit\<lparr>sWifiState := WIFI_STATE_FAIL, lastFail := 100000\<rparr>) = WIFI_STATE_FAIL \<and>
   (\<exists>s'. sWifiTask_step cfg0 env0 (wifiInit\<lparr>sWifiState := WIFI_STATE_FAIL, lastFail := 100000\<rparr>)
            = Some s' \<and>
          lastFail s' = 400000 \<and>
          trace s' = [StatusNoise STATUS_NOISE_FAIL, StatusLed STATUS_LED_FAIL]
                       @ fail_wait 300 @ [OsSleep 100])"
  using fail_entry_backoff [of "wifiInit\<lparr>sWifiState := WIFI_STATE_FAIL, lastFail := 100000\<rparr>"
      cfg0 env0]
  by (auto simp: wifiInit_def cfg0_def env0_def)

text \<open>
  C6 as stated fails at the threshold itself: two entries to \<open>FAIL\<close> separated by exactly
  1000 times the threshold are not separated by less than it, and still the slow interval
  is chosen.
\<close>

theorem backoff_at_threshold:
  "\<not> ((400000 :: 32 word) - 100000 < word_of_int (1000 * BACKEND_STABLE_CONN_THRS cfg0)) \<and>
   fail_waitTime cfg0 400000 100000 = BACKEND_RECONNECT_INTERVAL_SLOW cfg0 \<and>
   fail_waitTime cfg0 400000 100000 \<noteq> BACKEND_RECONNECT_INTERVAL cfg0"
  by (simp add: fail_waitTime_def cfg0_def)



lemma sWifiConnectBackend_lastFail:
  "lastFail (snd (sWifiConnectBackend cfg env s)) = lastFail s"
  by (simp add: sWifiConnectBackend_def emit_def Let_def split: option.splits prod.splits)

lemma sWifiHandleConnection_lastFail:
  "sWifiHandleConnection env s = Some (r, s') \<Longrightarrow> lastFail s' = lastFail s"
  by (auto simp: sWifiHandleConnection_def emit_def split: option.splits)

lemma sWifiTask_step_lastFail:
  assumes "sWifiTask_step cfg env s = Some s'" and "sWifiState s \<noteq> WIFI_STATE_FAIL"
  shows "lastFail s' = lastFail s"
proof (cases "sWifiState s")
  case WIFI_STATE_OFFLINE
  with assms show ?thesis
    by (auto simp: sWifiTask_step_def emit_def Let_def
        split: option.splits if_splits dest!: sWifiWaitConnect_lastFail)
next
  case WIFI_STATE_ONLINE
  with assms sWifiConnectBackend_lastFail [of cfg env s] show ?thesis
    by (auto simp: sWifiTask_step_def emit_def Let_def split: prod.splits if_splits)
next
  case WIFI_STATE_CONNECTED
  with assms show ?thesis
    by (auto simp: sWifiTask_step_def emit_def Let_def
        split: option.splits prod.splits if_splits
        dest!: sWifiHandleConnection_lastFail)
next
  case WIFI_STATE_FAIL
  with assms show ?thesis by simp
qed

lemma sWifiTask_run_snoc:
  "sWifiTask_run cfg (envs @ [env]) s =
     (case sWifiTask_run cfg envs s of None \<Rightarrow> None | Some s' \<Rightarrow> sWifiTask_step cfg env s')"
  by (induction envs arbitrary: s) (auto split: option.splits)

lemma sWifiTask_run_lastFail:
  "sWifiTask_run cfg envs s0 = Some s \<Longrightarrow>
   \<forall>i<length envs.
      map_option sWifiState (sWifiTask_run cfg (take i envs) s0) \<noteq> Some WIFI_STATE_FAIL \<Longrightarrow>
   lastFail s = lastFail s0"
proof (induction envs arbitrary: s rule: rev_induct)
  case Nil
  then show ?case by simp
next
  case (snoc env envs)
  from snoc.prems(1) obtain s1 where s1: "sWifiTask_run cfg envs s0 = Some s1"
    and step: "sWifiTask_step cfg env s1 = Some s"
    by (auto simp: sWifiTask_run_snoc split: option.splits)
  have "\<forall>i<length envs.
      map_option sWifiState (sWifiTask_run cfg (take i envs) s0) \<noteq> Some WIFI_STATE_FAIL"
  proof (intro allI impI)
    fix i assume "i < length envs"
    with snoc.prems(2) [rule_format, of i] show
      "map_option sWifiState (sWifiTask_run cfg (take i envs) s0) \<noteq> Some WIFI_STATE_FAIL"
      by simp
  qed
  with snoc.IH s1 have "lastFail s1 = lastFail s0" by blast
  moreover from snoc.prems(2) [rule_format, of "length envs"] s1
  have "sWifiState s1 \<noteq> WIFI_STATE_FAIL" by simp
  ultimately show ?case
    using sWifiTask_step_lastFail [OF step] by simp
qed

text \<open>
  C10. \<open>lastFail\<close> is written in the \<open>FAIL\<close> case only, so in a run from boot in which no
  earlier iteration started in \<open>FAIL\<close> it still has its initial value 0 when \<open>FAIL\<close> is
  entered for the first time. If then \<open>now\<close> is greater than 1000 times the
  stable-connection threshold, the short interval is the wait, although no connection has
  existed.
\<close>

theorem first_fail_short_backoff:
  assumes "sWifiTask_run cfg envs wifiInit = Some s"
    and "\<forall>i<length envs.
           map_option sWifiState (sWifiTask_run cfg (take i envs) wifiInit)
             \<noteq> Some WIFI_STATE_FAIL"
    and "sWifiState s = WIFI_STATE_FAIL"
    and "osTime env > word_of_int (1000 * BACKEND_STABLE_CONN_THRS cfg)"
  shows "lastFail s = 0 \<and>
         fail_waitTime cfg (osTime env) (lastFail s) = BACKEND_RECONNECT_INTERVAL cfg \<and>
         (\<exists>s'. sWifiTask_step cfg env s = Some s' \<and>
                trace s' = trace s @ [StatusNoise STATUS_NOISE_FAIL, StatusLed STATUS_LED_FAIL]
                             @ fail_wait (BACKEND_RECONNECT_INTERVAL cfg) @ [OsSleep 100])"
proof -
  from sWifiTask_run_lastFail [OF assms(1,2)] have z: "lastFail s = 0"
    by (simp add: wifiInit_def)
  with assms(4) have w: "fail_waitTime cfg (osTime env) (lastFail s) = BACKEND_RECONNECT_INTERVAL cfg"
    by (simp add: fail_waitTime_def)
  with assms(3) z show ?thesis
    by (simp add: sWifiTask_step_def Let_def emit_def)
qed

theorem first_fail_short_backoff_witness:
  "(\<exists>s. sWifiTask_run cfg0 [env_link_timeout] wifiInit = Some s \<and>
        sWifiState s = WIFI_STATE_FAIL \<and>
        lastFail s = 0 \<and>
        fail_waitTime cfg0 (osTime env0) (lastFail s) = 10) \<and>
   map_option sWifiState (sWifiTask_run cfg0 (take 0 [env_link_timeout]) wifiInit)
     \<noteq> Some WIFI_STATE_FAIL \<and>
   osTime env0 > word_of_int (1000 * BACKEND_STABLE_CONN_THRS cfg0)"
proof -
  obtain s where s: "sWifiTask_run cfg0 [env_link_timeout] wifiInit = Some s"
    and f: "sWifiState s = WIFI_STATE_FAIL"
    by (simp add: sWifiTask_step_def wifiInit_def emit_def sWifiWaitConnect_link_timeout)
  have n: "\<forall>i<length [env_link_timeout].
           map_option sWifiState (sWifiTask_run cfg0 (take i [env_link_timeout]) wifiInit)
             \<noteq> Some WIFI_STATE_FAIL"
    by (simp add: wifiInit_def)
  have t: "osTime env0 > word_of_int (1000 * BACKEND_STABLE_CONN_THRS cfg0)"
    by (simp add: env0_def cfg0_def)
  from first_fail_short_backoff [OF s n f t]
  have c: "lastFail s = 0"
    "fail_waitTime cfg0 (osTime env0) (lastFail s) = BACKEND_RECONNECT_INTERVAL cfg0"
    by blast+
  have i: "BACKEND_RECONNECT_INTERVAL cfg0 = 10"
    by (simp add: cfg0_def)
  have "\<exists>s. sWifiTask_run cfg0 [env_link_timeout] wifiInit = Some s \<and>
        sWifiState s = WIFI_STATE_FAIL \<and>
        lastFail s = 0 \<and>
        fail_waitTime cfg0 (osTime env0) (lastFail s) = 10"
    using s f c i by (intro exI [of _ s]) simp
  moreover from n have
    "map_option sWifiState (sWifiTask_run cfg0 (take 0 [env_link_timeout]) wifiInit)
       \<noteq> Some WIFI_STATE_FAIL"
    by simp
  ultimately show ?thesis
    using t by blast
qed


section \<open>Patience with a socket that would block\<close>

text \<open>
  C7. Let the bootstrap reach the receive loop. When the first \<open>n\<close> answers of
  \<open>netconn_recv\<close> are would-block and the next one is not, with \<open>n\<close> at most 500, the
  bootstrap sleeps 100 ms exactly \<open>n\<close> times, does not time out, and returns what the
  handling of that answer gives: true for a valid response that the handler accepts. When the
  first 501 answers are would-block, it sleeps exactly 500 times, logs "response timeout",
  closes and deletes the connection and returns false. So 400 polls that would block and then
  a complete valid response end in success.
\<close>

theorem bootstrap_would_block_patience:
  assumes "reqParams env = Some p" and "netconn_gethostbyname env = ERR_OK"
    and "netconn_connect env = ERR_OK" and "netconn_write env = ERR_OK"
    and "\<forall>j<n. fst (netconn_recv_hello env j) = ERR_WOULDBLOCK"
    and "n = 501 \<or> (n \<le> 500 \<and> fst (netconn_recv_hello env n) \<noteq> ERR_WOULDBLOCK)"
  shows "\<exists>new. trace (snd (sWifiConnectBackend cfg env s)) = trace s @ new \<and>
           (if n \<le> 500
            then fst (sWifiConnectBackend cfg env s)
                   = fst (hello_response env (netconn_recv_hello env n) []) \<and>
                 length (filter ((=) (OsSleep 100)) new) = n \<and>
                 ERROR ''wifi: response timeout'' \<notin> set new
            else \<not> fst (sWifiConnectBackend cfg env s) \<and>
                 length (filter ((=) (OsSleep 100)) new) = 500 \<and>
                 ERROR ''wifi: response timeout'' \<in> set new \<and>
                 NetconnClose (nextConn s) \<in> set new \<and>
                 NetconnDelete (nextConn s) \<in> set new)"
proof -
  let ?c = "nextConn s"
  let ?pre = "[NetconnNew ?c, NetconnConnect ?c, NetconnWrite ?c (make_request cfg p),
               NetconnSetNonblocking ?c]"
  have filt: "filter ((=) (OsSleep 100)) (replicate k (OsSleep 100)) = replicate k (OsSleep 100)"
    for k by simp
  show ?thesis
  proof (cases "n \<le> 500")
    case True
    let ?r = "netconn_recv_hello env n"
    obtain b bp tr where h: "hello_response env ?r (replicate n (OsSleep 100)) = (b, bp, tr)"
      by (cases "hello_response env ?r (replicate n (OsSleep 100))") auto
    from hello_response_events [of env ?r "replicate n (OsSleep 100)"] h obtain e where
      e: "tr = replicate n (OsSleep 100) @ e" "OsSleep 100 \<notin> set e"
      "ERROR ''wifi: response timeout'' \<notin> set e" "b = fst (hello_response env ?r [])"
      by auto
    from recv_hello_patience [OF assms(5,6), of "[]"] True h
    have rh: "recv_hello env 0 (5 * 100) [] = (b, bp, tr)"
      by simp
    let ?post = "(if bp then [NetbufFreeDelete] else [])
             @ (if b then [NetconnShutdownTx ?c]
                else [ERROR ''wifi: no or illegal response from backend'',
                      NetconnClose ?c, NetconnDelete ?c])"
    from sWifiConnectBackend_receive [OF assms(1-4) rh, of cfg s]
    have f: "fst (sWifiConnectBackend cfg env s) = b"
      and t: "trace (snd (sWifiConnectBackend cfg env s)) = trace s @ (?pre @ tr @ ?post)"
      by simp_all
    have "length (filter ((=) (OsSleep 100)) (?pre @ tr @ ?post)) = n"
      using e(1,2) by (auto simp: filter_empty_conv)
    moreover have "ERROR ''wifi: response timeout'' \<notin> set (?pre @ tr @ ?post)"
      using e(1,3) by auto
    ultimately show ?thesis
      using True f t e(4) by (intro exI [of _ "?pre @ tr @ ?post"]) simp
  next
    case False
    let ?tr = "replicate 500 (OsSleep 100) @ [ERROR ''wifi: response timeout'']"
    let ?post = "[ERROR ''wifi: no or illegal response from backend'',
                  NetconnClose ?c, NetconnDelete ?c]"
    from recv_hello_patience [OF assms(5,6), of "[]"] False
    have rh: "recv_hello env 0 (5 * 100) [] = (False, False, ?tr)"
      by simp
    from sWifiConnectBackend_receive [OF assms(1-4) rh, of cfg s]
    have f: "\<not> fst (sWifiConnectBackend cfg env s)"
      and t: "trace (snd (sWifiConnectBackend cfg env s)) = trace s @ (?pre @ ?tr @ ?post)"
      by simp_all
    have "length (filter ((=) (OsSleep 100)) (?pre @ ?tr @ ?post)) = 500"
      by simp
    with False f t show ?thesis
      by (intro exI [of _ "?pre @ ?tr @ ?post"]) simp
  qed
qed

theorem bootstrap_would_block_patience_witness:
  "fst (netconn_recv_hello env_patience 399) = ERR_WOULDBLOCK \<and>
   netconn_recv_hello env_patience 400 = (ERR_OK, Netbuf ERR_OK happy_response 41) \<and>
   fst (sWifiConnectBackend cfg0 env_patience wifiInit) \<and>
   fst (netconn_recv_hello env_silent 500) = ERR_WOULDBLOCK \<and>
   \<not> fst (sWifiConnectBackend cfg0 env_silent wifiInit)"
proof -
  have f: "reqParams env_patience = Some p0" "netconn_gethostbyname env_patience = ERR_OK"
    "netconn_connect env_patience = ERR_OK" "netconn_write env_patience = ERR_OK"
    by (simp_all add: env_patience_def env0_def)
  have wb: "\<forall>j<400. fst (netconn_recv_hello env_patience j) = ERR_WOULDBLOCK"
    by (simp add: env_patience_def env0_def)
  have now: "netconn_recv_hello env_patience 400 = (ERR_OK, Netbuf ERR_OK happy_response 41)"
    by (simp add: env_patience_def env0_def)
  have acc: "backendConnect env_patience = (\<lambda>s n. True)"
    by (simp add: env_patience_def env0_def)
  have n: "(400 :: nat) = 501 \<or> ((400 :: nat) \<le> 500
             \<and> fst (netconn_recv_hello env_patience 400) \<noteq> ERR_WOULDBLOCK)"
    using now by simp
  from bootstrap_would_block_patience [OF f wb n, of cfg0 wifiInit] now acc
  have ok: "fst (sWifiConnectBackend cfg0 env_patience wifiInit)"
    by (auto simp: hello_response_def check_response_happy)
  have f': "reqParams env_silent = Some p0" "netconn_gethostbyname env_silent = ERR_OK"
    "netconn_connect env_silent = ERR_OK" "netconn_write env_silent = ERR_OK"
    by (simp_all add: env_silent_def env0_def)
  have wb': "\<forall>j<501. fst (netconn_recv_hello env_silent j) = ERR_WOULDBLOCK"
    by (simp add: env_silent_def env0_def)
  from bootstrap_would_block_patience [OF f' wb', of cfg0 wifiInit]
  have no: "\<not> fst (sWifiConnectBackend cfg0 env_silent wifiInit)"
    by auto
  from wb wb' now ok no show ?thesis
    by simp
qed

section \<open>Leaving the pump\<close>


lemma pump_loop_exit:
  assumes "\<not> pump_continues env k"
  shows "\<exists>new. list_all is_pump_event new \<and>
           (\<forall>tr. pump_loop env k res tr = Some (pump_reconnects env k, tr @ new))"
proof (cases "backendIsOkay env k")
  case False
  then have "\<forall>tr. pump_loop env k res tr = Some (pump_reconnects env k, tr @ [])"
    by (subst pump_loop.simps) (simp add: pump_reconnects_def)
  then show ?thesis
    by (intro exI [of _ "[]"]) simp
next
  case okay: True
  obtain errRecv buf where r: "netconn_recv_pump env k = (errRecv, buf)"
    by (cases "netconn_recv_pump env k")
  from assms okay r have nwb: "errRecv \<noteq> ERR_WOULDBLOCK"
    by (auto simp: pump_continues_def)
  show ?thesis
  proof (cases "errRecv = ERR_OK")
    case False
    with okay r nwb
    have "\<forall>tr. pump_loop env k res tr =
            Some (pump_reconnects env k, tr @ [ERROR ''wifi: read failed: %s''])"
      by (subst pump_loop.simps) (simp add: pump_reconnects_def)
    then show ?thesis
      by (intro exI [of _ "[ERROR ''wifi: read failed: %s'']"]) (simp add: is_pump_event_def)
  next
    case recv: True
    show ?thesis
    proof (cases "errData buf = ERR_OK")
      case False
      with okay r recv
      have "\<forall>tr. pump_loop env k res tr =
              Some (pump_reconnects env k,
                    tr @ [ERROR ''wifi: netbuf_data() failed: %s'', NetbufFreeDelete])"
        by (subst pump_loop.simps) (simp add: pump_reconnects_def)
      then show ?thesis
        by (intro exI [of _ "[ERROR ''wifi: netbuf_data() failed: %s'', NetbufFreeDelete]"])
          (simp add: is_pump_event_def)
    next
      case dat: True
      let ?new = "[BackendHandle (take (unat (len buf)) (data buf)) (uint (len buf)),
                   NetbufFreeDelete]"
      from assms okay r recv dat have "backendHandle env k \<noteq> BACKEND_STATUS_OKAY"
        by (auto simp: pump_continues_def)
      with okay r recv dat
      have "\<forall>tr. pump_loop env k res tr = Some (pump_reconnects env k, tr @ ?new)"
        by (subst pump_loop.simps)
          (cases "backendHandle env k"; simp add: pump_reconnects_def Let_def)
      then show ?thesis
        by (intro exI [of _ ?new]) (simp add: is_pump_event_def)
    qed
  qed
qed

lemma pump_loop_continue:
  assumes "pump_continues env k"
  shows "\<exists>new. list_all is_pump_event new \<and>
           (\<forall>tr. pump_loop env k res tr = pump_loop env (k + 1) res (tr @ new))"
proof -
  obtain errRecv buf where r: "netconn_recv_pump env k = (errRecv, buf)"
    by (cases "netconn_recv_pump env k")
  from assms have okay: "backendIsOkay env k"
    by (simp add: pump_continues_def)
  show ?thesis
  proof (cases "errRecv = ERR_WOULDBLOCK")
    case True
    with okay r have "\<forall>tr. pump_loop env k res tr = pump_loop env (k + 1) res (tr @ [OsSleep 23])"
      by (subst pump_loop.simps) simp
    then show ?thesis
      by (intro exI [of _ "[OsSleep 23]"]) (simp add: is_pump_event_def)
  next
    case False
    let ?new = "[BackendHandle (take (unat (len buf)) (data buf)) (uint (len buf)),
                 NetbufFreeDelete]"
    from False assms r
    have "errRecv = ERR_OK" "errData buf = ERR_OK" "backendHandle env k = BACKEND_STATUS_OKAY"
      by (auto simp: pump_continues_def)
    with okay r have "\<forall>tr. pump_loop env k res tr = pump_loop env (k + 1) res (tr @ ?new)"
      by (subst pump_loop.simps) (simp add: Let_def)
    then show ?thesis
      by (intro exI [of _ ?new]) (simp add: is_pump_event_def)
  qed
qed

lemma pump_loop_skip:
  "\<forall>j<n. pump_continues env (k + j) \<Longrightarrow>
     \<exists>new. list_all is_pump_event new \<and>
       (\<forall>tr. pump_loop env k res tr = pump_loop env (k + n) res (tr @ new))"
proof (induction n arbitrary: k)
  case 0
  show ?case
    by (intro exI [of _ "[]"]) simp
next
  case (Suc n)
  from Suc.prems have "pump_continues env k"
    by (metis add.right_neutral zero_less_Suc)
  from pump_loop_continue [OF this, of res] obtain new1 where
    n1: "list_all is_pump_event new1"
    "\<And>tr. pump_loop env k res tr = pump_loop env (k + 1) res (tr @ new1)"
    by blast
  from Suc.prems have "\<forall>j<n. pump_continues env (k + 1 + j)"
    by (metis Suc_less_eq add.assoc plus_1_eq_Suc)
  from Suc.IH [OF this] obtain new2 where
    n2: "list_all is_pump_event new2"
    "\<And>tr. pump_loop env (k + 1) res tr = pump_loop env (k + 1 + n) res (tr @ new2)"
    by blast
  from n1 n2 have "list_all is_pump_event (new1 @ new2)"
    "\<forall>tr. pump_loop env k res tr = pump_loop env (k + Suc n) res (tr @ new1 @ new2)"
    by (simp_all add: add.assoc)
  then show ?case by blast
qed

text \<open>
  C8. When the iterations before the \<open>n\<close>-th go round the loop and the \<open>n\<close>-th does not,
  the iteration of the task that starts in \<open>CONNECTED\<close> returns; its events are the two
  indicator signals of the state, events of the loop, \<open>backendDisconnect\<close> once as the last
  call of the pump, and the closing sleep. The next state is the online state (\<open>ONLINE\<close>
  when the link is up, \<open>OFFLINE\<close> when not) if the loop was left on the handler's
  \<open>BACKEND_STATUS_RECONNECT\<close>, and \<open>FAIL\<close> in every other case: the backend not okay, a
  receive or \<open>netbuf_data\<close> error, or the handler's \<open>BACKEND_STATUS_FAIL\<close>. No event of
  the backoff is among them.
\<close>

theorem pump_exit_drives_state:
  assumes "sWifiState s = WIFI_STATE_CONNECTED"
    and "\<forall>j<n. pump_continues env j"
    and "\<not> pump_continues env n"
  shows "\<exists>s' new. sWifiTask_step cfg env s = Some s' \<and>
           trace s' = trace s @ [StatusNoise STATUS_NOISE_ONLINE, StatusLed STATUS_LED_HEARTBEAT]
                        @ new @ [BackendDisconnect, OsSleep 100] \<and>
           list_all is_pump_event new \<and>
           sWifiState s' =
             (if pump_reconnects env n
              then (if sWifiIsOnline env then WIFI_STATE_ONLINE else WIFI_STATE_OFFLINE)
              else WIFI_STATE_FAIL)"
proof -
  from assms(2) have "\<forall>j<n. pump_continues env (0 + j)" by simp
  from pump_loop_skip [OF this, of True] obtain new1 where
    n1: "list_all is_pump_event new1"
    "\<And>tr. pump_loop env 0 True tr = pump_loop env n True (tr @ new1)"
    by auto
  from pump_loop_exit [OF assms(3), of True] obtain new2 where
    n2: "list_all is_pump_event new2"
    "\<And>tr. pump_loop env n True tr = Some (pump_reconnects env n, tr @ new2)"
    by blast
  from n1(2) n2(2)
  have p: "pump_loop env 0 True [] = Some (pump_reconnects env n, new1 @ new2)"
    by simp
  from n1(1) n2(1) have ev: "list_all is_pump_event (new1 @ new2)"
    by simp
  show ?thesis
    using assms(1) p ev
    by (cases "pump_reconnects env n")
      (auto simp: sWifiTask_step_def sWifiHandleConnection_def emit_def Let_def online_state_def)
qed

theorem pump_exit_drives_state_witness:
  "pump_continues env0 0 \<and> pump_continues env0 1 \<and> \<not> pump_continues env0 2 \<and>
   pump_reconnects env0 2 \<and>
   (\<exists>s'. sWifiTask_step cfg0 env0 (wifiInit\<lparr>sWifiState := WIFI_STATE_CONNECTED\<rparr>) = Some s' \<and>
      last (butlast (trace s')) = BackendDisconnect \<and> sWifiState s' = WIFI_STATE_ONLINE)"
proof -
  have c: "\<forall>j<2. pump_continues env0 j"
    by (simp add: pump_continues_def env0_def)
  have x: "\<not> pump_continues env0 2" "pump_reconnects env0 2" "sWifiIsOnline env0"
    by (simp_all add: pump_continues_def pump_reconnects_def env0_def)
  have s: "sWifiState (wifiInit\<lparr>sWifiState := WIFI_STATE_CONNECTED\<rparr>) = WIFI_STATE_CONNECTED"
    by simp
  from pump_exit_drives_state [OF s c x(1), of cfg0] x
  have "\<exists>s'. sWifiTask_step cfg0 env0 (wifiInit\<lparr>sWifiState := WIFI_STATE_CONNECTED\<rparr>) = Some s' \<and>
      last (butlast (trace s')) = BackendDisconnect \<and> sWifiState s' = WIFI_STATE_ONLINE"
    by (auto simp: butlast_append)
  with c x show ?thesis
    by (simp add: numeral_2_eq_2 less_Suc_eq)
qed


section \<open>The indicator signals of the offline state\<close>











end
